theory Spec2Isabelle
  imports Main "HOL-Library.Sublist"
begin

section \<open>The text adventure engine (text_adventure_engine.py)\<close>

text \<open>
  A shallow embedding of the room-navigation engine. Python objects become records,
  dictionaries become association lists in insertion order (the order is visible in
  the list of exits a room prints), a raised exception becomes a value of type
  \<open>error\<close> on the left of a sum, and the text written to standard output is a field
  of the session, one list element per write.

  Characters are the code points below 256; \<open>is_space\<close> and \<open>lower_char\<close> are
  Python's \<open>str.isspace\<close> and \<open>str.lower\<close> on that range.
\<close>

subsection \<open>Strings: lower, strip, split, join\<close>

definition is_space :: "char \<Rightarrow> bool" where
  "is_space c = ((of_char c :: nat) \<in> {9, 10, 11, 12, 13, 28, 29, 30, 31, 32, 133, 160})"

definition is_upper :: "char \<Rightarrow> bool" where
  "is_upper c = (let n = (of_char c :: nat) in
     (65 \<le> n \<and> n \<le> 90) \<or> (192 \<le> n \<and> n \<le> 222 \<and> n \<noteq> 215))"

definition lower_char :: "char \<Rightarrow> char" where
  "lower_char c = (if is_upper c then char_of ((of_char c :: nat) + 32) else c)"

definition str_lower :: "string \<Rightarrow> string" where
  "str_lower s = map lower_char s"

definition str_strip :: "string \<Rightarrow> string" where
  "str_strip s = rev (dropWhile is_space (rev (dropWhile is_space s)))"

text \<open>
  \<open>str.split()\<close> with no argument: the maximal runs of characters that are not
  whitespace, in order; \<open>cur\<close> is the run being read.
\<close>

fun split_from :: "string \<Rightarrow> string \<Rightarrow> string list" where
  "split_from cur [] = (if cur = [] then [] else [cur])"
| "split_from cur (c # cs) =
     (if is_space c then (if cur = [] then split_from [] cs else cur # split_from [] cs)
      else split_from (cur @ [c]) cs)"

definition str_split :: "string \<Rightarrow> string list" where
  "str_split s = split_from [] s"

fun join :: "string \<Rightarrow> string list \<Rightarrow> string" where
  "join sep [] = []"
| "join sep [x] = x"
| "join sep (x # y # ys) = x @ sep @ join sep (y # ys)"

subsection \<open>Dictionaries\<close>

text \<open>
  A dictionary keeps its keys in insertion order; assigning to a key that is present
  replaces the value where it stands, assigning to a new key appends it. A lookup is
  \<open>map_of\<close>; \<open>d[k]\<close> on a missing key raises KeyError.
\<close>

fun dict_set :: "'k \<Rightarrow> 'v \<Rightarrow> ('k \<times> 'v) list \<Rightarrow> ('k \<times> 'v) list" where
  "dict_set k v [] = [(k, v)]"
| "dict_set k v (p # d) = (if fst p = k then (k, v) # d else p # dict_set k v d)"

definition dict_keys :: "('k \<times> 'v) list \<Rightarrow> 'k list" where
  "dict_keys d = map fst d"

datatype error = KeyError string

subsection \<open>Room\<close>

record room =
  name :: string
  description :: string
  connections :: "(string \<times> string) list"
  is_end :: bool

definition Room_init :: "string \<Rightarrow> string \<Rightarrow> (string \<times> string) list option \<Rightarrow> bool \<Rightarrow> room" where
  "Room_init nm desc conns e =
     \<lparr>name = nm, description = desc,
      connections = (case conns of Some c \<Rightarrow> c | None \<Rightarrow> []),
      is_end = e\<rparr>"

definition add_connection :: "room \<Rightarrow> string \<Rightarrow> string \<Rightarrow> room" where
  "add_connection r direction target_room =
     r\<lparr>connections := dict_set direction target_room (connections r)\<rparr>"

definition get_description :: "room \<Rightarrow> string" where
  "get_description r =
     (let desc = ''--- '' @ name r @ '' ---\<newline>'' @ description r @ ''\<newline>'';
          exits = join '', '' (dict_keys (connections r))
      in desc @ ''Available exits: '' @ exits)"

subsection \<open>AdventureGame\<close>

record game =
  rooms :: "(string \<times> room) list"
  current_room :: room
  is_running :: bool
  stdout :: "string list"

text \<open>\<open>print(x)\<close> writes \<open>x\<close> and a newline.\<close>

definition print :: "game \<Rightarrow> string \<Rightarrow> game" where
  "print s x = s\<lparr>stdout := stdout s @ [x @ ''\<newline>'']\<rparr>"

definition create_world :: "(string \<times> room) list" where
  "create_world =
     (let r1 = Room_init ''Entrance Hall''
                 ''You are in a dusty, dimly lit hall. There is a suit of armor by the north wall.''
                 None False;
          r2 = Room_init ''Treasure Chamber''
                 ''A small chamber filled with glittering gold and ancient artifacts! You win!''
                 None True;
          r3 = Room_init ''Dark Corridor''
                 ''A narrow, dark corridor. It smells faintly of mildew.''
                 None False;
          r4 = Room_init ''Storage Room''
                 ''Boxes and old crates are stacked high. A small key is visible beneath a loose floorboard.''
                 None False;
          r1 = add_connection r1 ''north'' ''dark_corridor'';
          r1 = add_connection r1 ''east'' ''treasure_chamber'';
          r3 = add_connection r3 ''south'' ''start_hall'';
          r3 = add_connection r3 ''west'' ''storage_room'';
          r4 = add_connection r4 ''east'' ''dark_corridor''
      in [(''start_hall'', r1), (''treasure_chamber'', r2),
          (''dark_corridor'', r3), (''storage_room'', r4)])"

text \<open>
  The constructor, with the mapping that \<open>_create_world\<close> returned as an argument:
  it looks up \<open>'start_hall'\<close> and does nothing else with the mapping.
\<close>

definition init_with :: "(string \<times> room) list \<Rightarrow> error + game" where
  "init_with w =
     (case map_of w ''start_hall'' of
        None \<Rightarrow> Inl (KeyError ''start_hall'')
      | Some r \<Rightarrow> Inr \<lparr>rooms = w, current_room = r, is_running = True, stdout = []\<rparr>)"

definition AdventureGame_init :: "error + game" where
  "AdventureGame_init = init_with create_world"

definition look :: "game \<Rightarrow> game" where
  "look s = print s (''\<newline>'' @ get_description (current_room s))"

definition quit_game :: "game \<Rightarrow> game" where
  "quit_game s = print (s\<lparr>is_running := False\<rparr>) ''\<newline>Thank you for playing. Goodbye!''"

text \<open>
  \<open>_handle_move\<close>: the lookup \<open>self.rooms[next_room_key]\<close> raises KeyError on a key
  the mapping does not have. Every \<open>Room\<close> has the attribute \<open>is_end\<close> (the
  constructor sets it), so the test \<open>hasattr(..., 'is_end')\<close> is always true and the
  branch reads the field.
\<close>

definition handle_move :: "game \<Rightarrow> string \<Rightarrow> error + game" where
  "handle_move s direction =
     (case map_of (connections (current_room s)) direction of
        Some next_room_key \<Rightarrow>
          (case map_of (rooms s) next_room_key of
             None \<Rightarrow> Inl (KeyError next_room_key)
           | Some r \<Rightarrow>
               (let s1 = s\<lparr>current_room := r\<rparr> in
                if is_end (current_room s1)
                then Inr ((print s1 (''\<newline>'' @ get_description (current_room s1)))
                            \<lparr>is_running := False\<rparr>)
                else Inr (look s1)))
      | None \<Rightarrow> Inr (print s ''You cannot go that way.''))"

definition unknown_message :: "string \<Rightarrow> string" where
  "unknown_message command =
     ''Unknown command: '' @ [CHR 0x27] @ command @ [CHR 0x27] @ ''. Try 'go north' or 'quit'.''"

definition parse_command :: "game \<Rightarrow> string \<Rightarrow> error + game" where
  "parse_command s command0 =
     (let command = str_strip (str_lower command0);
          parts = str_split command
      in case parts of
           [] \<Rightarrow> Inr s
         | verb # _ \<Rightarrow>
             if verb \<in> set [''north'', ''south'', ''east'', ''west'', ''go'']
             then (let direction = (if verb = ''go'' then last parts else verb)
                   in handle_move s direction)
             else if verb \<in> set [''quit'', ''exit''] then Inr (quit_game s)
             else if verb \<in> set [''look'', ''l''] then Inr (look s)
             else Inr (print s (unknown_message command)))"

subsection \<open>The interaction loop\<close>

text \<open>
  What the blocking read meets: a line (without its newline) or an interrupt; the end
  of the list is the end of the input. \<open>input(">> ")\<close> writes the prompt before it
  reads. A KeyError is caught by neither handler of the loop and leaves \<open>play\<close>.
\<close>

datatype input_event = Line string | Interrupt

definition prompt :: "game \<Rightarrow> game" where
  "prompt s = s\<lparr>stdout := stdout s @ [''>> '']\<rparr>"

function play_loop :: "game \<Rightarrow> input_event list \<Rightarrow> error + game" where
  "play_loop s inp =
     (if is_running s then
        (case inp of
           [] \<Rightarrow> play_loop (quit_game (prompt s)) []
         | Interrupt # rest \<Rightarrow> play_loop (quit_game (prompt s)) rest
         | Line l # rest \<Rightarrow>
             (let user_input = str_strip l in
              if user_input \<noteq> [] then
                (case parse_command (prompt s) user_input of
                   Inl e \<Rightarrow> Inl e
                 | Inr s' \<Rightarrow> play_loop s' rest)
              else play_loop (prompt s) rest))
      else Inr s)"
  by pat_completeness auto
termination
  by (relation "measure (\<lambda>(s, inp). 2 * length inp + (if is_running s then 1 else 0))")
     (auto simp: quit_game_def print_def prompt_def)

declare play_loop.simps [simp del]

definition play :: "game \<Rightarrow> input_event list \<Rightarrow> error + game" where
  "play s inp = play_loop (look (print s ''Welcome to the Minimal Text Adventure!'')) inp"

subsection \<open>The world graph as a value, and what the invariants say\<close>

text \<open>
  Every exit of every room of a mapping names a key of the mapping, and a room is
  stored in a mapping. Both are decided by running over the lists.
\<close>

definition exits_resolve :: "(string \<times> room) list \<Rightarrow> bool" where
  "exits_resolve w =
     list_all (\<lambda>(k, r). list_all (\<lambda>(d, t). map_of w t \<noteq> None) (connections r)) w"

definition in_world :: "(string \<times> room) list \<Rightarrow> room \<Rightarrow> bool" where
  "in_world w r = list_ex (\<lambda>k. map_of w k = Some r) (dict_keys w)"

definition game_inv :: "game \<Rightarrow> bool" where
  "game_inv s = (exits_resolve (rooms s) \<and> in_world (rooms s) (current_room s))"

text \<open>The four rooms that \<open>_create_world\<close> builds, written out, and the new session.\<close>

definition entrance_hall :: room where
  "entrance_hall =
     \<lparr>name = ''Entrance Hall'',
      description = ''You are in a dusty, dimly lit hall. There is a suit of armor by the north wall.'',
      connections = [(''north'', ''dark_corridor''), (''east'', ''treasure_chamber'')],
      is_end = False\<rparr>"

definition treasure_chamber :: room where
  "treasure_chamber =
     \<lparr>name = ''Treasure Chamber'',
      description = ''A small chamber filled with glittering gold and ancient artifacts! You win!'',
      connections = [],
      is_end = True\<rparr>"

definition dark_corridor :: room where
  "dark_corridor =
     \<lparr>name = ''Dark Corridor'',
      description = ''A narrow, dark corridor. It smells faintly of mildew.'',
      connections = [(''south'', ''start_hall''), (''west'', ''storage_room'')],
      is_end = False\<rparr>"

definition storage_room :: room where
  "storage_room =
     \<lparr>name = ''Storage Room'',
      description = ''Boxes and old crates are stacked high. A small key is visible beneath a loose floorboard.'',
      connections = [(''east'', ''dark_corridor'')],
      is_end = False\<rparr>"

definition start_game :: game where
  "start_game = \<lparr>rooms = create_world, current_room = entrance_hall, is_running = True, stdout = []\<rparr>"

text \<open>
  A mapping with an exit to a key it does not have, built with the constructor and
  \<open>add_connection\<close> of \<open>Room\<close>, and the session over it.
\<close>

definition dangling_world :: "(string \<times> room) list" where
  "dangling_world =
     [(''start_hall'', add_connection (Room_init ''Entrance Hall'' ''A hall.'' None False)
                          ''north'' ''dark_corridor'')]"

definition dangling_hall :: room where
  "dangling_hall =
     \<lparr>name = ''Entrance Hall'', description = ''A hall.'',
      connections = [(''north'', ''dark_corridor'')], is_end = False\<rparr>"

definition dangling_game :: game where
  "dangling_game =
     \<lparr>rooms = dangling_world, current_room = dangling_hall, is_running = True, stdout = []\<rparr>"

section \<open>Properties\<close>

subsection \<open>Helper lemmas\<close>

lemma create_world_eq:
  "create_world = [(''start_hall'', entrance_hall), (''treasure_chamber'', treasure_chamber),
                   (''dark_corridor'', dark_corridor), (''storage_room'', storage_room)]"
  by (simp add: create_world_def Room_init_def add_connection_def entrance_hall_def
        treasure_chamber_def dark_corridor_def storage_room_def)

lemma init_start: "AdventureGame_init = Inr start_game"
  by (simp add: AdventureGame_init_def init_with_def create_world_eq start_game_def)

lemma of_char_lower_char:
  "is_upper c \<Longrightarrow> (of_char (lower_char c) :: nat) = of_char c + 32"
  by (auto simp: lower_char_def is_upper_def Let_def)

lemma is_space_lower_char [simp]: "is_space (lower_char c) = is_space c"
proof (cases "is_upper c")
  case True
  then have "(of_char (lower_char c) :: nat) = of_char c + 32" by (rule of_char_lower_char)
  with True show ?thesis by (auto simp: is_space_def is_upper_def Let_def)
next
  case False
  then show ?thesis by (simp add: lower_char_def)
qed

lemma dropWhile_space_lower:
  "dropWhile is_space (map lower_char xs) = map lower_char (dropWhile is_space xs)"
  by (induction xs) auto

lemma strip_lower_commute: "str_strip (str_lower x) = str_lower (str_strip x)"
  by (simp add: str_strip_def str_lower_def dropWhile_space_lower rev_map)

lemma last_dropWhile: "dropWhile P xs \<noteq> [] \<Longrightarrow> last (dropWhile P xs) = last xs"
  by (induction xs) (auto split: if_splits)

lemma dropWhile_rev_strip:
  "dropWhile is_space (str_strip x) = str_strip x"
proof (cases "str_strip x = []")
  case True
  then show ?thesis by simp
next
  case False
  let ?d = "dropWhile is_space x"
  let ?y = "dropWhile is_space (rev ?d)"
  from False have y: "?y \<noteq> []" by (simp add: str_strip_def)
  then have d: "?d \<noteq> []" by (metis dropWhile.simps(1) rev.simps(1))
  have "hd (str_strip x) = last ?y" using y by (simp add: str_strip_def hd_rev)
  also have "\<dots> = last (rev ?d)" using y by (rule last_dropWhile)
  also have "\<dots> = hd ?d" using d by (simp add: last_rev)
  finally have "\<not> is_space (hd (str_strip x))" using hd_dropWhile [OF d] by simp
  with False show ?thesis by (cases "str_strip x") auto
qed

lemma strip_idem: "str_strip (str_strip x) = str_strip x"
proof -
  have "str_strip (str_strip x) = rev (dropWhile is_space (rev (str_strip x)))"
    unfolding str_strip_def [of "str_strip x"] by (simp only: dropWhile_rev_strip)
  also have "rev (str_strip x) = dropWhile is_space (rev (dropWhile is_space x))"
    by (simp add: str_strip_def)
  also have "rev (dropWhile is_space (dropWhile is_space (rev (dropWhile is_space x)))) = str_strip x"
    by (simp add: str_strip_def)
  finally show ?thesis .
qed

lemma strip_empty_lower: "(str_lower x = []) = (x = [])"
  by (simp add: str_lower_def)

lemma parse_command_tokens:
  "str_split (str_strip (str_lower c)) = parts \<Longrightarrow>
   parse_command s c =
     (case parts of
        [] \<Rightarrow> Inr s
      | verb # _ \<Rightarrow>
          if verb \<in> set [''north'', ''south'', ''east'', ''west'', ''go'']
          then handle_move s (if verb = ''go'' then last parts else verb)
          else if verb \<in> set [''quit'', ''exit''] then Inr (quit_game s)
          else if verb \<in> set [''look'', ''l''] then Inr (look s)
          else Inr (print s (unknown_message (str_strip (str_lower c)))))"
  by (cases parts) (simp_all add: parse_command_def Let_def)

lemma tok_east: "str_split (str_strip (str_lower ''east'')) = [''east'']"
  by code_simp

lemma parse_east: "parse_command s ''east'' = handle_move s ''east''"
  by (simp add: parse_command_tokens [OF tok_east])

lemma exits_resolve_iff:
  "exits_resolve w \<longleftrightarrow>
     (\<forall>k r d t. (k, r) \<in> set w \<longrightarrow> (d, t) \<in> set (connections r) \<longrightarrow> (\<exists>r'. map_of w t = Some r'))"
  by (fastforce simp: exits_resolve_def list_all_iff)

lemma in_world_iff: "in_world w r \<longleftrightarrow> (\<exists>k. map_of w k = Some r)"
proof
  assume "in_world w r"
  then show "\<exists>k. map_of w k = Some r" by (auto simp: in_world_def list_ex_iff)
next
  assume "\<exists>k. map_of w k = Some r"
  then obtain k where k: "map_of w k = Some r" ..
  then have "(k, r) \<in> set w" by (rule map_of_SomeD)
  then have "k \<in> set (dict_keys w)" by (force simp: dict_keys_def)
  with k show "in_world w r" by (auto simp: in_world_def list_ex_iff)
qed

lemma exits_resolve_create_world: "exits_resolve create_world"
  by (simp add: exits_resolve_def create_world_eq entrance_hall_def treasure_chamber_def dark_corridor_def storage_room_def)

lemma map_of_dict_keys: "(map_of d k = None) = (k \<notin> set (dict_keys d))"
  by (simp add: dict_keys_def map_of_eq_None_iff)

lemma start_game_simps:
  "rooms start_game = create_world" "current_room start_game = entrance_hall"
  "is_running start_game" "stdout start_game = []"
  by (simp_all add: start_game_def)

lemma tok_north: "str_split (str_strip (str_lower ''north'')) = [''north'']"
  by code_simp

lemma parse_north: "parse_command s ''north'' = handle_move s ''north''"
  by (simp add: parse_command_tokens [OF tok_north])

lemma dangling_world_eq: "dangling_world = [(''start_hall'', dangling_hall)]"
  by (simp add: dangling_world_def dangling_hall_def Room_init_def add_connection_def)

lemma play_loop_ended: "\<not> is_running s \<Longrightarrow> play_loop s inp = Inr s"
  by (subst play_loop.simps) simp

lemma quit_game_simps:
  "is_running (quit_game s) = False" "current_room (quit_game s) = current_room s"
  "rooms (quit_game s) = rooms s"
  "stdout (quit_game s) = stdout s @ [''\<newline>Thank you for playing. Goodbye!\<newline>'']"
  by (simp_all add: quit_game_def print_def)

lemma play_loop_eof: "is_running s \<Longrightarrow> play_loop s [] = Inr (quit_game (prompt s))"
  by (subst play_loop.simps) (simp add: play_loop_ended quit_game_simps)

lemma play_loop_interrupt:
  "is_running s \<Longrightarrow> play_loop s (Interrupt # rest) = Inr (quit_game (prompt s))"
  by (subst play_loop.simps) (simp add: play_loop_ended quit_game_simps)

lemma play_loop_line:
  "is_running s \<Longrightarrow> play_loop s (Line l # rest) =
     (if str_strip l \<noteq> [] then
        (case parse_command (prompt s) (str_strip l) of
           Inl e \<Rightarrow> Inl e
         | Inr s' \<Rightarrow> play_loop s' rest)
      else play_loop (prompt s) rest)"
  by (subst play_loop.simps) (simp add: Let_def)

lemma get_description_treasure:
  "get_description treasure_chamber =
     ''--- Treasure Chamber ---\<newline>A small chamber filled with glittering gold and ancient artifacts! You win!\<newline>Available exits: ''"
  by (simp add: get_description_def treasure_chamber_def dict_keys_def)

lemma get_description_corridor:
  "get_description dark_corridor =
     ''--- Dark Corridor ---\<newline>A narrow, dark corridor. It smells faintly of mildew.\<newline>Available exits: south, west''"
  by (simp add: get_description_def dark_corridor_def dict_keys_def)

lemma handle_move_end:
  "map_of (connections (current_room s)) d = Some k \<Longrightarrow> map_of (rooms s) k = Some r \<Longrightarrow> is_end r
   \<Longrightarrow> handle_move s d =
         Inr (s\<lparr>current_room := r, is_running := False,
                stdout := stdout s @ [''\<newline>'' @ get_description r @ ''\<newline>'']\<rparr>)"
  by (simp add: handle_move_def print_def)

lemma handle_move_step:
  "map_of (connections (current_room s)) d = Some k \<Longrightarrow> map_of (rooms s) k = Some r \<Longrightarrow> \<not> is_end r
   \<Longrightarrow> handle_move s d =
         Inr (s\<lparr>current_room := r,
                stdout := stdout s @ [''\<newline>'' @ get_description r @ ''\<newline>'']\<rparr>)"
  by (simp add: handle_move_def look_def print_def)

lemma world_lookup:
  "map_of create_world ''start_hall'' = Some entrance_hall"
  "map_of create_world ''treasure_chamber'' = Some treasure_chamber"
  "map_of create_world ''dark_corridor'' = Some dark_corridor"
  "map_of create_world ''storage_room'' = Some storage_room"
  by (simp_all add: create_world_eq)

lemma entrance_exits:
  "map_of (connections entrance_hall) ''north'' = Some ''dark_corridor''"
  "map_of (connections entrance_hall) ''east'' = Some ''treasure_chamber''"
  "map_of (connections entrance_hall) ''go'' = None"
  by (simp_all add: entrance_hall_def)

lemma room_flags:
  "\<not> is_end entrance_hall" "is_end treasure_chamber" "\<not> is_end dark_corridor"
  "\<not> is_end storage_room"
  by (simp_all add: entrance_hall_def treasure_chamber_def dark_corridor_def storage_room_def)

lemma tok_go_north: "str_split (str_strip (str_lower ''go north'')) = [''go'', ''north'']"
  by code_simp

lemma tok_go_quickly_north:
  "str_split (str_strip (str_lower ''go quickly north'')) = [''go'', ''quickly'', ''north'']"
  by code_simp

lemma tok_go: "str_split (str_strip (str_lower ''go'')) = [''go'']"
  by code_simp

lemma tok_quit: "str_split (str_strip (str_lower ''quit'')) = [''quit'']"
  by code_simp

lemma tok_exit: "str_split (str_strip (str_lower ''exit'')) = [''exit'']"
  by code_simp

lemma tok_look: "str_split (str_strip (str_lower ''look'')) = [''look'']"
  by code_simp

lemma tok_l: "str_split (str_strip (str_lower ''l'')) = [''l'']"
  by code_simp

lemma parse_quit: "parse_command s ''quit'' = Inr (quit_game s)"
  by (simp add: parse_command_tokens [OF tok_quit])

lemma parse_exit: "parse_command s ''exit'' = Inr (quit_game s)"
  by (simp add: parse_command_tokens [OF tok_exit])

lemma parse_look: "parse_command s ''look'' = Inr (look s)"
  by (simp add: parse_command_tokens [OF tok_look])

lemma parse_l: "parse_command s ''l'' = Inr (look s)"
  by (simp add: parse_command_tokens [OF tok_l])

lemma look_simps:
  "is_running (look s) = is_running s" "current_room (look s) = current_room s"
  "rooms (look s) = rooms s"
  "stdout (look s) = stdout s @ [''\<newline>'' @ get_description (current_room s) @ ''\<newline>'']"
  by (simp_all add: look_def print_def)

lemma prompt_simps:
  "is_running (prompt s) = is_running s" "current_room (prompt s) = current_room s"
  "rooms (prompt s) = rooms s" "stdout (prompt s) = stdout s @ [''>> '']"
  by (simp_all add: prompt_def)

lemma parse_command_normal:
  "str_strip (str_lower a) = str_strip (str_lower b) \<Longrightarrow> parse_command s a = parse_command s b"
  by (simp add: parse_command_def)

lemma lower_strip_empty: "str_lower (str_strip a) = str_lower (str_strip b) \<Longrightarrow>
  (str_strip a = []) = (str_strip b = [])"
  by (metis strip_empty_lower)

lemma look_funpow_room:
  "current_room ((look ^^ n) s) = current_room s \<and> is_running ((look ^^ n) s) = is_running s
   \<and> rooms ((look ^^ n) s) = rooms s"
  by (induction n) (simp_all add: look_simps)

lemma look_funpow_stdout:
  "stdout ((look ^^ n) s) =
     stdout s @ replicate n (''\<newline>'' @ get_description (current_room s) @ ''\<newline>'')"
proof (induction n)
  case 0
  then show ?case by simp
next
  case (Suc n)
  then show ?case
    by (simp add: look_simps look_funpow_room replicate_append_same)
qed

lemma tok_dance: "str_split (str_strip (str_lower ''DANCE'')) = [''dance'']"
  by code_simp

lemma norm_dance: "str_strip (str_lower ''DANCE'') = ''dance''"
  by code_simp

lemma game_inv_cong:
  "game_inv s \<Longrightarrow> rooms s' = rooms s \<Longrightarrow> current_room s' = current_room s \<Longrightarrow> game_inv s'"
  by (simp add: game_inv_def)

lemma print_simps:
  "is_running (print s x) = is_running s" "current_room (print s x) = current_room s"
  "rooms (print s x) = rooms s" "stdout (print s x) = stdout s @ [x @ ''\<newline>'']"
  by (simp_all add: print_def)

lemma game_inv_print: "game_inv s \<Longrightarrow> game_inv (print s x)"
  by (erule game_inv_cong) (simp_all add: print_simps)

lemma game_inv_look: "game_inv s \<Longrightarrow> game_inv (look s)"
  by (simp add: look_def game_inv_print)

lemma game_inv_quit: "game_inv s \<Longrightarrow> game_inv (quit_game s)"
  by (erule game_inv_cong) (simp_all add: quit_game_simps)

lemma game_inv_prompt: "game_inv s \<Longrightarrow> game_inv (prompt s)"
  by (erule game_inv_cong) (simp_all add: prompt_simps)

lemma game_inv_start: "game_inv start_game"
  by (simp add: game_inv_def start_game_simps exits_resolve_create_world in_world_iff)
     (rule exI [of _ "''start_hall''"], simp add: world_lookup)

lemma handle_move_inv:
  assumes "game_inv s"
  shows "\<exists>s'. handle_move s d = Inr s' \<and> game_inv s' \<and> rooms s' = rooms s"
proof (cases "map_of (connections (current_room s)) d")
  case None
  then have "handle_move s d = Inr (print s ''You cannot go that way.'')"
    by (simp add: handle_move_def)
  with assms show ?thesis by (simp add: game_inv_print print_simps)
next
  case (Some k)
  from assms obtain key where "map_of (rooms s) key = Some (current_room s)"
    by (auto simp: game_inv_def in_world_iff)
  then have "(key, current_room s) \<in> set (rooms s)" by (rule map_of_SomeD)
  moreover from Some have "(d, k) \<in> set (connections (current_room s))" by (rule map_of_SomeD)
  moreover from assms have "exits_resolve (rooms s)" by (simp add: game_inv_def)
  ultimately obtain r where r: "map_of (rooms s) k = Some r"
    unfolding exits_resolve_iff by blast
  from assms r have inv: "\<And>s'. rooms s' = rooms s \<Longrightarrow> current_room s' = r \<Longrightarrow> game_inv s'"
    by (auto simp: game_inv_def in_world_iff)
  show ?thesis
  proof (cases "is_end r")
    case True
    from handle_move_end [OF Some r True] show ?thesis by (simp add: inv)
  next
    case False
    from handle_move_step [OF Some r False] show ?thesis by (simp add: inv)
  qed
qed

lemma parse_command_inv:
  assumes "game_inv s"
  shows "\<exists>s'. parse_command s c = Inr s' \<and> game_inv s' \<and> rooms s' = rooms s"
proof (cases "str_split (str_strip (str_lower c))")
  case Nil
  with assms show ?thesis by (simp add: parse_command_tokens [OF Nil])
next
  case (Cons verb rest)
  show ?thesis
    using assms handle_move_inv [OF assms]
    by (simp add: parse_command_tokens [OF Cons] game_inv_quit game_inv_look game_inv_print
          quit_game_simps look_simps print_simps)
qed

lemma play_loop_inv:
  "game_inv s \<Longrightarrow> \<exists>s'. play_loop s inp = Inr s' \<and> game_inv s' \<and> \<not> is_running s'"
proof (induction s inp rule: play_loop.induct)
  case (1 s inp)
  show ?case
  proof (cases "is_running s")
    case False
    with "1.prems" show ?thesis by (simp add: play_loop_ended)
  next
    case True
    have q: "game_inv (quit_game (prompt s))" using "1.prems"
      by (simp add: game_inv_quit game_inv_prompt)
    show ?thesis
    proof (cases inp)
      case Nil
      with True q show ?thesis by (simp add: play_loop_eof quit_game_simps)
    next
      case (Cons e rest)
      show ?thesis
      proof (cases e)
        case Interrupt
        with True q Cons show ?thesis by (simp add: play_loop_interrupt quit_game_simps)
      next
        case (Line l)
        show ?thesis
        proof (cases "str_strip l = []")
          case e: True
          have "\<exists>s'. play_loop (prompt s) rest = Inr s' \<and> game_inv s' \<and> \<not> is_running s'"
            using e "1.prems"
            by (intro "1.IH"(3) [OF True Cons Line refl]) (simp_all add: game_inv_prompt)
          with True Cons Line e show ?thesis by (simp add: play_loop_line)
        next
          case ne: False
          from parse_command_inv [OF game_inv_prompt [OF "1.prems"], of "str_strip l"]
          obtain s1 where s1: "parse_command (prompt s) (str_strip l) = Inr s1" "game_inv s1"
            by blast
          have "\<exists>s'. play_loop s1 rest = Inr s' \<and> game_inv s' \<and> \<not> is_running s'"
            using ne s1 by (intro "1.IH"(2) [OF True Cons Line refl]) simp_all
          with True Cons Line ne s1 show ?thesis by (simp add: play_loop_line)
        qed
      qed
    qed
  qed
qed

lemma play_inv:
  "game_inv s \<Longrightarrow> \<exists>s'. play s inp = Inr s' \<and> game_inv s' \<and> \<not> is_running s'"
  unfolding play_def by (intro play_loop_inv game_inv_look game_inv_print)

lemma start_north:
  "parse_command start_game ''north'' =
     Inr (start_game\<lparr>current_room := dark_corridor,
            stdout := [''\<newline>'' @ get_description dark_corridor @ ''\<newline>'']\<rparr>)"
  using handle_move_step [of start_game "''north''" "''dark_corridor''" dark_corridor]
  by (simp add: parse_north start_game_simps world_lookup entrance_exits room_flags)

subsection \<open>C1: closure of the world graph\<close>

text \<open>
  C1, as stated, also says that a dangling exit is found when the session is
  constructed. The constructor has no such check: on a mapping whose only room has an
  exit \<open>north\<close> to the absent key \<open>dark_corridor\<close> it returns a session, and the
  command \<open>north\<close> then raises KeyError.
\<close>

theorem C1_dangling_exit_counterexample:
  "\<not> exits_resolve dangling_world
   \<and> init_with dangling_world = Inr dangling_game
   \<and> parse_command dangling_game ''north'' = Inl (KeyError ''dark_corridor'')"
proof -
  have a: "\<not> exits_resolve dangling_world"
    by (simp add: exits_resolve_def dangling_world_eq dangling_hall_def)
  have b: "init_with dangling_world = Inr dangling_game"
    by (simp add: init_with_def dangling_game_def dangling_world_eq)
  have c: "handle_move dangling_game ''north'' = Inl (KeyError ''dark_corridor'')"
    by (simp add: handle_move_def dangling_game_def dangling_world_eq dangling_hall_def)
  from a b c show ?thesis by (simp add: parse_north)
qed

text \<open>
  C1 (amended): in the mapping that \<open>_create_world\<close> returns, every exit target of
  every room is a key of the mapping; the constructor checks nothing about exits: on
  any mapping that has the key \<open>start_hall\<close> it returns the running session placed in
  that room.
\<close>

theorem C1_world_closed_no_check:
  "(\<forall>k r d t. (k, r) \<in> set create_world \<longrightarrow> (d, t) \<in> set (connections r)
       \<longrightarrow> (\<exists>r'. map_of create_world t = Some r'))
   \<and> (\<forall>w r. map_of w ''start_hall'' = Some r
       \<longrightarrow> init_with w = Inr \<lparr>rooms = w, current_room = r, is_running = True, stdout = []\<rparr>)"
proof (intro conjI)
  show "\<forall>k r d t. (k, r) \<in> set create_world \<longrightarrow> (d, t) \<in> set (connections r)
       \<longrightarrow> (\<exists>r'. map_of create_world t = Some r')"
    using exits_resolve_create_world by (simp only: exits_resolve_iff)
  show "\<forall>w r. map_of w ''start_hall'' = Some r
       \<longrightarrow> init_with w = Inr \<lparr>rooms = w, current_room = r, is_running = True, stdout = []\<rparr>"
    by (simp add: init_with_def)
qed

theorem C1_world_closed_no_check_witness:
  "(''start_hall'', entrance_hall) \<in> set create_world
   \<and> (''north'', ''dark_corridor'') \<in> set (connections entrance_hall)
   \<and> map_of create_world ''dark_corridor'' = Some dark_corridor
   \<and> map_of dangling_world ''start_hall'' = Some dangling_hall
   \<and> init_with dangling_world = Inr dangling_game"
proof -
  have a: "(''start_hall'', entrance_hall) \<in> set create_world" by (simp add: create_world_eq)
  have b: "(''north'', ''dark_corridor'') \<in> set (connections entrance_hall)"
    by (simp add: entrance_hall_def)
  have c: "map_of create_world ''dark_corridor'' = Some dark_corridor"
    by (simp add: create_world_eq)
  have d: "map_of dangling_world ''start_hall'' = Some dangling_hall"
    by (simp add: dangling_world_eq)
  have e: "\<lparr>rooms = dangling_world, current_room = dangling_hall,
            is_running = True, stdout = []\<rparr> = dangling_game"
    by (simp add: dangling_game_def)
  from C1_world_closed_no_check have
    "\<exists>r'. map_of create_world ''dark_corridor'' = Some r'"
    "init_with dangling_world = Inr \<lparr>rooms = dangling_world, current_room = dangling_hall,
            is_running = True, stdout = []\<rparr>"
    using a b d by blast+
  with a b c d e show ?thesis by simp
qed

subsection \<open>C3: a move in a direction that is not an exit\<close>

text \<open>
  C3: for every session and every direction that is not among the exits of the
  current room, \<open>_handle_move\<close> returns the session with one more line written, the
  rejection message, and nothing else changed: the same room, the same running flag,
  the same mapping.
\<close>

theorem C3_invalid_move_rejected:
  assumes "direction \<notin> set (dict_keys (connections (current_room s)))"
  shows "handle_move s direction = Inr (s\<lparr>stdout := stdout s @ [''You cannot go that way.\<newline>'']\<rparr>)
       \<and> current_room (s\<lparr>stdout := stdout s @ [''You cannot go that way.\<newline>'']\<rparr>) = current_room s
       \<and> is_running (s\<lparr>stdout := stdout s @ [''You cannot go that way.\<newline>'']\<rparr>) = is_running s
       \<and> rooms (s\<lparr>stdout := stdout s @ [''You cannot go that way.\<newline>'']\<rparr>) = rooms s"
proof -
  from assms have "map_of (connections (current_room s)) direction = None"
    by (simp add: map_of_dict_keys)
  then show ?thesis by (simp add: handle_move_def print_def)
qed

theorem C3_invalid_move_rejected_witness:
  "''west'' \<notin> set (dict_keys (connections (current_room start_game)))
   \<and> handle_move start_game ''west'' = Inr (start_game\<lparr>stdout := [''You cannot go that way.\<newline>'']\<rparr>)"
proof -
  have h: "''west'' \<notin> set (dict_keys (connections (current_room start_game)))"
    by (simp add: start_game_simps entrance_hall_def dict_keys_def)
  from C3_invalid_move_rejected [OF h] show ?thesis using h by (simp add: start_game_simps)
qed

subsection \<open>C2: moving into a terminal room\<close>

text \<open>
  C2: a move through an exit whose target room has the terminal flag set places the
  session in that room, writes the room's full description and clears the running
  flag. In the new session, which starts in the Entrance Hall, the command \<open>east\<close>
  does so with the Treasure Chamber.
\<close>

theorem C2_terminal_move_ends_session:
  "(\<forall>s d k r. map_of (connections (current_room s)) d = Some k \<longrightarrow> map_of (rooms s) k = Some r
       \<longrightarrow> is_end r \<longrightarrow>
       handle_move s d =
         Inr (s\<lparr>current_room := r, is_running := False,
                stdout := stdout s @ [''\<newline>'' @ get_description r @ ''\<newline>'']\<rparr>))
   \<and> AdventureGame_init = Inr start_game
   \<and> name (current_room start_game) = ''Entrance Hall''
   \<and> is_running start_game
   \<and> parse_command start_game ''east'' =
        Inr (start_game\<lparr>current_room := treasure_chamber, is_running := False,
               stdout := [''\<newline>--- Treasure Chamber ---\<newline>A small chamber filled with glittering gold and ancient artifacts! You win!\<newline>Available exits: \<newline>'']\<rparr>)
   \<and> name treasure_chamber = ''Treasure Chamber'' \<and> is_end treasure_chamber"
proof (intro conjI)
  show "\<forall>s d k r. map_of (connections (current_room s)) d = Some k \<longrightarrow> map_of (rooms s) k = Some r
       \<longrightarrow> is_end r \<longrightarrow>
       handle_move s d =
         Inr (s\<lparr>current_room := r, is_running := False,
                stdout := stdout s @ [''\<newline>'' @ get_description r @ ''\<newline>'']\<rparr>)"
    by (simp add: handle_move_end)
  show "AdventureGame_init = Inr start_game" by (rule init_start)
  show "name (current_room start_game) = ''Entrance Hall''"
    by (simp add: start_game_simps entrance_hall_def)
  show "is_running start_game" by (simp add: start_game_simps)
  have "handle_move start_game ''east'' =
        Inr (start_game\<lparr>current_room := treasure_chamber, is_running := False,
               stdout := [''\<newline>'' @ get_description treasure_chamber @ ''\<newline>'']\<rparr>)"
    using handle_move_end [of start_game "''east''" "''treasure_chamber''" treasure_chamber]
    by (simp add: start_game_simps world_lookup entrance_exits room_flags)
  then show "parse_command start_game ''east'' =
        Inr (start_game\<lparr>current_room := treasure_chamber, is_running := False,
               stdout := [''\<newline>--- Treasure Chamber ---\<newline>A small chamber filled with glittering gold and ancient artifacts! You win!\<newline>Available exits: \<newline>'']\<rparr>)"
    by (simp add: parse_east get_description_treasure)
  show "name treasure_chamber = ''Treasure Chamber''" by (simp add: treasure_chamber_def)
  show "is_end treasure_chamber" by (simp add: treasure_chamber_def)
qed

theorem C2_terminal_move_ends_session_witness:
  "map_of (connections (current_room start_game)) ''east'' = Some ''treasure_chamber''
   \<and> map_of (rooms start_game) ''treasure_chamber'' = Some treasure_chamber
   \<and> is_end treasure_chamber
   \<and> handle_move start_game ''east'' =
         Inr (start_game\<lparr>current_room := treasure_chamber, is_running := False,
                stdout := [''\<newline>'' @ get_description treasure_chamber @ ''\<newline>'']\<rparr>)"
proof -
  have a: "map_of (connections (current_room start_game)) ''east'' = Some ''treasure_chamber''"
    by (simp add: start_game_simps entrance_hall_def)
  have b: "map_of (rooms start_game) ''treasure_chamber'' = Some treasure_chamber"
    by (simp add: start_game_simps create_world_eq)
  have c: "is_end treasure_chamber" by (simp add: treasure_chamber_def)
  from C2_terminal_move_ends_session a b c
  have "handle_move start_game ''east'' =
         Inr (start_game\<lparr>current_room := treasure_chamber, is_running := False,
                stdout := stdout start_game @ [''\<newline>'' @ get_description treasure_chamber @ ''\<newline>'']\<rparr>)"
    by blast
  with a b c show ?thesis by (simp add: start_game_simps)
qed

subsection \<open>C4: after the session has ended\<close>

text \<open>
  C4, as stated, makes every action on an ended session a no-op. \<open>parse_command\<close> does
  not read the running flag: after \<open>quit\<close> in the Entrance Hall, the command \<open>north\<close>
  still moves to the Dark Corridor and writes its description.
\<close>

theorem C4_parse_after_end_counterexample:
  "\<not> is_running (quit_game start_game)
   \<and> current_room (quit_game start_game) = entrance_hall
   \<and> parse_command (quit_game start_game) ''north'' =
        Inr ((quit_game start_game)\<lparr>current_room := dark_corridor,
               stdout := [''\<newline>Thank you for playing. Goodbye!\<newline>'',
                          ''\<newline>--- Dark Corridor ---\<newline>A narrow, dark corridor. It smells faintly of mildew.\<newline>Available exits: south, west\<newline>'']\<rparr>)
   \<and> dark_corridor \<noteq> entrance_hall"
proof -
  have "handle_move (quit_game start_game) ''north'' =
        Inr ((quit_game start_game)\<lparr>current_room := dark_corridor,
               stdout := [''\<newline>Thank you for playing. Goodbye!\<newline>'',
                          ''\<newline>'' @ get_description dark_corridor @ ''\<newline>'']\<rparr>)"
    using handle_move_step [of "quit_game start_game" "''north''" "''dark_corridor''" dark_corridor]
    by (simp add: quit_game_simps start_game_simps world_lookup entrance_exits room_flags)
  moreover have "dark_corridor \<noteq> entrance_hall"
    by (simp add: dark_corridor_def entrance_hall_def)
  ultimately show ?thesis
    by (simp add: parse_north get_description_corridor quit_game_simps start_game_simps)
qed

text \<open>
  C4 (amended): once the running flag is cleared, the loop of \<open>play\<close> reads no further
  input: whatever input remains, it returns the session as it is, with the same room
  and nothing more written. So when the command of a line ends the session, the loop
  returns the session that command left, whatever lines follow.
\<close>

theorem C4_loop_stops_after_end:
  "(\<forall>s inp. \<not> is_running s \<longrightarrow> play_loop s inp = Inr s)
   \<and> (\<forall>s l rest s1. is_running s \<longrightarrow> str_strip l \<noteq> []
         \<longrightarrow> parse_command (prompt s) (str_strip l) = Inr s1 \<longrightarrow> \<not> is_running s1
         \<longrightarrow> play_loop s (Line l # rest) = Inr s1)"
  by (simp add: play_loop_ended play_loop_line)

theorem C4_loop_stops_after_end_witness:
  "\<not> is_running (quit_game start_game)
   \<and> play_loop (quit_game start_game) [Line ''north'', Line ''look''] = Inr (quit_game start_game)
   \<and> is_running start_game \<and> str_strip ''east'' \<noteq> []
   \<and> parse_command (prompt start_game) (str_strip ''east'') =
        Inr (start_game\<lparr>current_room := treasure_chamber, is_running := False,
               stdout := [''>> '', ''\<newline>'' @ get_description treasure_chamber @ ''\<newline>'']\<rparr>)
   \<and> play_loop start_game [Line ''east'', Line ''north''] =
        Inr (start_game\<lparr>current_room := treasure_chamber, is_running := False,
               stdout := [''>> '', ''\<newline>'' @ get_description treasure_chamber @ ''\<newline>'']\<rparr>)"
proof -
  have h: "\<not> is_running (quit_game start_game)" by (simp add: quit_game_simps)
  have r: "is_running start_game" by (simp add: start_game_simps)
  have e: "str_strip ''east'' = ''east''" by code_simp
  have p: "parse_command (prompt start_game) (str_strip ''east'') =
        Inr (start_game\<lparr>current_room := treasure_chamber, is_running := False,
               stdout := [''>> '', ''\<newline>'' @ get_description treasure_chamber @ ''\<newline>'']\<rparr>)"
    using handle_move_end [of "prompt start_game" "''east''" "''treasure_chamber''" treasure_chamber]
    by (simp add: e parse_east prompt_simps start_game_simps world_lookup entrance_exits room_flags)
  have n: "str_strip ''east'' \<noteq> []" by (simp add: e)
  from C4_loop_stops_after_end h have
    a: "play_loop (quit_game start_game) [Line ''north'', Line ''look''] = Inr (quit_game start_game)"
    by blast
  from C4_loop_stops_after_end r n p have
    b: "play_loop start_game (Line ''east'' # [Line ''north'']) =
        Inr (start_game\<lparr>current_room := treasure_chamber, is_running := False,
               stdout := [''>> '', ''\<newline>'' @ get_description treasure_chamber @ ''\<newline>'']\<rparr>)"
    by (auto simp del: append.simps)
  from h r n p a b show ?thesis by simp
qed

subsection \<open>C5: the verb go\<close>

text \<open>
  C5: when the first token of the normalised command is \<open>go\<close>, \<open>parse_command\<close> is
  \<open>_handle_move\<close> on the last token. So \<open>go north\<close> is \<open>north\<close> (from the Entrance
  Hall both lead to the Dark Corridor, whose description lists the exits south and
  west), \<open>go quickly north\<close> moves north, and \<open>go\<close> alone moves in the direction
  \<open>go\<close>, which is an exit of no room of the world and is rejected.
\<close>

theorem C5_go_takes_last_token:
  "(\<forall>s c rest. str_split (str_strip (str_lower c)) = ''go'' # rest
       \<longrightarrow> parse_command s c = handle_move s (last (''go'' # rest)))
   \<and> (\<forall>s. parse_command s ''go north'' = parse_command s ''north'')
   \<and> parse_command start_game ''go north'' =
        Inr (start_game\<lparr>current_room := dark_corridor,
               stdout := [''\<newline>--- Dark Corridor ---\<newline>A narrow, dark corridor. It smells faintly of mildew.\<newline>Available exits: south, west\<newline>'']\<rparr>)
   \<and> (\<forall>s. parse_command s ''go quickly north'' = handle_move s ''north'')
   \<and> (\<forall>s. parse_command s ''go'' = handle_move s ''go'')
   \<and> (\<forall>k r. (k, r) \<in> set create_world \<longrightarrow> ''go'' \<notin> set (dict_keys (connections r)))
   \<and> parse_command start_game ''go'' =
        Inr (start_game\<lparr>stdout := [''You cannot go that way.\<newline>'']\<rparr>)"
proof (intro conjI allI impI)
  fix s c rest
  assume "str_split (str_strip (str_lower c)) = ''go'' # rest"
  then show "parse_command s c = handle_move s (last (''go'' # rest))"
    by (simp add: parse_command_tokens)
next
  fix s
  show "parse_command s ''go north'' = parse_command s ''north''"
    by (simp add: parse_command_tokens [OF tok_go_north] parse_north)
  show "parse_command s ''go quickly north'' = handle_move s ''north''"
    by (simp add: parse_command_tokens [OF tok_go_quickly_north])
  show "parse_command s ''go'' = handle_move s ''go''"
    by (simp add: parse_command_tokens [OF tok_go])
next
  have "handle_move start_game ''north'' =
        Inr (start_game\<lparr>current_room := dark_corridor,
               stdout := [''\<newline>'' @ get_description dark_corridor @ ''\<newline>'']\<rparr>)"
    using handle_move_step [of start_game "''north''" "''dark_corridor''" dark_corridor]
    by (simp add: start_game_simps world_lookup entrance_exits room_flags)
  then show "parse_command start_game ''go north'' =
        Inr (start_game\<lparr>current_room := dark_corridor,
               stdout := [''\<newline>--- Dark Corridor ---\<newline>A narrow, dark corridor. It smells faintly of mildew.\<newline>Available exits: south, west\<newline>'']\<rparr>)"
    by (simp add: parse_command_tokens [OF tok_go_north] get_description_corridor)
next
  fix k r
  assume "(k, r) \<in> set create_world"
  then show "''go'' \<notin> set (dict_keys (connections r))"
    by (auto simp: create_world_eq dict_keys_def entrance_hall_def treasure_chamber_def
          dark_corridor_def storage_room_def)
next
  have "handle_move start_game ''go'' = Inr (start_game\<lparr>stdout := [''You cannot go that way.\<newline>'']\<rparr>)"
    by (simp add: handle_move_def print_def start_game_simps entrance_exits)
  then show "parse_command start_game ''go'' =
        Inr (start_game\<lparr>stdout := [''You cannot go that way.\<newline>'']\<rparr>)"
    by (simp add: parse_command_tokens [OF tok_go])
qed

lemma tok_go_mixed:
  "str_split (str_strip (str_lower ''  Go  quickly NORTH '')) = ''go'' # [''quickly'', ''north'']"
  by code_simp

theorem C5_go_takes_last_token_witness:
  "str_split (str_strip (str_lower ''  Go  quickly NORTH '')) = ''go'' # [''quickly'', ''north'']
   \<and> parse_command start_game ''  Go  quickly NORTH '' = handle_move start_game ''north''
   \<and> (''start_hall'', entrance_hall) \<in> set create_world
   \<and> ''go'' \<notin> set (dict_keys (connections entrance_hall))"
proof -
  have a: "(''start_hall'', entrance_hall) \<in> set create_world" by (simp add: create_world_eq)
  from C5_go_takes_last_token tok_go_mixed a have
    "parse_command start_game ''  Go  quickly NORTH '' = handle_move start_game (last (''go'' # [''quickly'', ''north'']))"
    "''go'' \<notin> set (dict_keys (connections entrance_hall))"
    by blast+
  with tok_go_mixed a show ?thesis by simp
qed

subsection \<open>C6: quit, exit and the end of the input\<close>

text \<open>
  C6: in every session, running or not and in whatever room, the commands \<open>quit\<close> and
  \<open>exit\<close> are \<open>quit_game\<close>, which clears the running flag and writes the farewell
  line, leaving the room as it is. In the loop of a running session, the end of the
  input and an interrupt of the read give the same final session as the line \<open>quit\<close>,
  and the loop returns.
\<close>

theorem C6_quit_and_end_of_input:
  "(\<forall>s. parse_command s ''quit'' = Inr (quit_game s) \<and> parse_command s ''exit'' = Inr (quit_game s))
   \<and> (\<forall>s. \<not> is_running (quit_game s)
          \<and> stdout (quit_game s) = stdout s @ [''\<newline>Thank you for playing. Goodbye!\<newline>'']
          \<and> current_room (quit_game s) = current_room s \<and> rooms (quit_game s) = rooms s)
   \<and> (\<forall>s rest. is_running s \<longrightarrow>
          play_loop s [] = Inr (quit_game (prompt s))
        \<and> play_loop s (Line ''quit'' # rest) = Inr (quit_game (prompt s))
        \<and> play_loop s (Line ''exit'' # rest) = Inr (quit_game (prompt s))
        \<and> play_loop s (Interrupt # rest) = Inr (quit_game (prompt s)))"
proof (intro conjI allI impI)
  fix s :: game and rest :: "input_event list"
  assume run: "is_running s"
  have q: "str_strip ''quit'' = ''quit''" by code_simp
  have e: "str_strip ''exit'' = ''exit''" by code_simp
  show "play_loop s [] = Inr (quit_game (prompt s))" using run by (rule play_loop_eof)
  show "play_loop s (Interrupt # rest) = Inr (quit_game (prompt s))"
    using run by (rule play_loop_interrupt)
  show "play_loop s (Line ''quit'' # rest) = Inr (quit_game (prompt s))"
    by (simp only: play_loop_line [OF run] q parse_quit)
       (simp add: play_loop_ended quit_game_simps)
  show "play_loop s (Line ''exit'' # rest) = Inr (quit_game (prompt s))"
    by (simp only: play_loop_line [OF run] e parse_exit)
       (simp add: play_loop_ended quit_game_simps)
qed (simp_all add: parse_quit parse_exit quit_game_simps)

theorem C6_quit_and_end_of_input_witness:
  "is_running start_game
   \<and> play_loop start_game [] =
       Inr (start_game\<lparr>is_running := False,
              stdout := [''>> '', ''\<newline>Thank you for playing. Goodbye!\<newline>'']\<rparr>)
   \<and> play_loop start_game [Line ''quit'', Line ''north''] = play_loop start_game []"
proof -
  have h: "is_running start_game" by (simp add: start_game_simps)
  from C6_quit_and_end_of_input h have
    "play_loop start_game [] = Inr (quit_game (prompt start_game))"
    "play_loop start_game (Line ''quit'' # [Line ''north'']) = Inr (quit_game (prompt start_game))"
    by blast+
  with h show ?thesis by (simp add: quit_game_def print_def prompt_def start_game_def)
qed

subsection \<open>C7: case and surrounding whitespace\<close>

text \<open>
  C7: two input lines that are the same once trimmed and lower-cased are the same
  command: \<open>parse_command\<close> returns the same result on both from every session, and so
  does the loop of \<open>play\<close> reading one or the other as its next line. The session
  returned holds the room, the running flag and all the text written.
\<close>

theorem C7_case_and_whitespace_insensitive:
  assumes "str_lower (str_strip a) = str_lower (str_strip b)"
  shows "parse_command s a = parse_command s b
       \<and> play_loop s (Line a # rest) = play_loop s (Line b # rest)"
proof
  from assms have n: "str_strip (str_lower a) = str_strip (str_lower b)"
    by (simp add: strip_lower_commute)
  then show "parse_command s a = parse_command s b" by (rule parse_command_normal)
  show "play_loop s (Line a # rest) = play_loop s (Line b # rest)"
  proof (cases "is_running s")
    case False
    then show ?thesis by (simp add: play_loop_ended)
  next
    case True
    have e: "(str_strip a = []) = (str_strip b = [])" using assms by (rule lower_strip_empty)
    have "str_strip (str_lower (str_strip a)) = str_strip (str_lower (str_strip b))"
      using assms by (simp add: strip_lower_commute strip_idem)
    then have "parse_command (prompt s) (str_strip a) = parse_command (prompt s) (str_strip b)"
      by (rule parse_command_normal)
    with e show ?thesis by (simp add: play_loop_line [OF True])
  qed
qed

theorem C7_case_and_whitespace_insensitive_witness:
  "str_lower (str_strip ''  NORTH '') = str_lower (str_strip ''north'')
   \<and> str_lower (str_strip ''North'') = str_lower (str_strip ''north'')
   \<and> parse_command start_game ''  NORTH '' = parse_command start_game ''north''
   \<and> parse_command start_game ''North'' = parse_command start_game ''north''
   \<and> play_loop start_game [Line ''  NORTH ''] = play_loop start_game [Line ''north'']"
proof -
  have a: "str_lower (str_strip ''  NORTH '') = str_lower (str_strip ''north'')" by code_simp
  have b: "str_lower (str_strip ''North'') = str_lower (str_strip ''north'')" by code_simp
  from C7_case_and_whitespace_insensitive [OF a, of start_game "[]"]
       C7_case_and_whitespace_insensitive [OF b, of start_game "[]"] a b
  show ?thesis by simp
qed

subsection \<open>C8: look\<close>

text \<open>
  C8: in every session the commands \<open>look\<close> and \<open>l\<close> are both \<open>look\<close>, which
  leaves the room, the running flag and the mapping as they are and writes the
  description of the current room. Looking \<open>n\<close> times writes that same description
  \<open>n\<close> times and nothing else.
\<close>

theorem C8_look_does_not_mutate:
  "parse_command s ''look'' = Inr (look s) \<and> parse_command s ''l'' = Inr (look s)
   \<and> current_room (look s) = current_room s \<and> is_running (look s) = is_running s
   \<and> rooms (look s) = rooms s
   \<and> stdout (look s) = stdout s @ [''\<newline>'' @ get_description (current_room s) @ ''\<newline>'']
   \<and> current_room ((look ^^ n) s) = current_room s
   \<and> is_running ((look ^^ n) s) = is_running s
   \<and> stdout ((look ^^ n) s) =
        stdout s @ replicate n (''\<newline>'' @ get_description (current_room s) @ ''\<newline>'')"
  by (simp add: parse_look parse_l look_simps look_funpow_room look_funpow_stdout)

subsection \<open>C9: unrecognised commands\<close>

text \<open>
  C9, as stated, has the message echo the original input. The message names the
  command after it was lower-cased and trimmed: for the input \<open>DANCE\<close> the line
  written has \<open>dance\<close>, and the text \<open>DANCE\<close> occurs nowhere in it.
\<close>

theorem C9_echo_original_counterexample:
  "parse_command start_game ''DANCE'' =
     Inr (start_game\<lparr>stdout := [''Unknown command: 'dance'. Try 'go north' or 'quit'.\<newline>'']\<rparr>)
   \<and> \<not> sublist ''DANCE'' ''Unknown command: 'dance'. Try 'go north' or 'quit'.\<newline>''"
proof -
  have "parse_command start_game ''DANCE'' = Inr (print start_game (unknown_message ''dance''))"
    by (simp add: parse_command_tokens [OF tok_dance] norm_dance)
  moreover have "\<not> sublist ''DANCE'' ''Unknown command: 'dance'. Try 'go north' or 'quit'.\<newline>''"
    by code_simp
  ultimately show ?thesis by (simp add: print_def unknown_message_def start_game_simps)
qed

text \<open>
  C9 (amended): for every input whose first token, after lower-casing and trimming,
  is none of \<open>north\<close>, \<open>south\<close>, \<open>east\<close>, \<open>west\<close>, \<open>go\<close>, \<open>quit\<close>, \<open>exit\<close>, \<open>look\<close>,
  \<open>l\<close>, \<open>parse_command\<close> writes one line, \<open>Unknown command: '<c>'. Try 'go north' or
  'quit'.\<close> with \<open><c>\<close> the lower-cased and trimmed input, and changes nothing else:
  the room, the running flag and the mapping stay as they are.
\<close>

theorem C9_unknown_command:
  assumes "str_split (str_strip (str_lower c)) = verb # rest"
    and "verb \<notin> {''north'', ''south'', ''east'', ''west'', ''go'', ''quit'', ''exit'', ''look'', ''l''}"
  shows "parse_command s c =
           Inr (s\<lparr>stdout := stdout s @
                  [''Unknown command: '' @ [CHR 0x27] @ str_strip (str_lower c) @ [CHR 0x27]
                   @ ''. Try 'go north' or 'quit'.'' @ ''\<newline>'']\<rparr>)
       \<and> current_room (s\<lparr>stdout := stdout s @
                  [''Unknown command: '' @ [CHR 0x27] @ str_strip (str_lower c) @ [CHR 0x27]
                   @ ''. Try 'go north' or 'quit'.'' @ ''\<newline>'']\<rparr>) = current_room s
       \<and> is_running (s\<lparr>stdout := stdout s @
                  [''Unknown command: '' @ [CHR 0x27] @ str_strip (str_lower c) @ [CHR 0x27]
                   @ ''. Try 'go north' or 'quit'.'' @ ''\<newline>'']\<rparr>) = is_running s"
  using assms(2) by (simp add: parse_command_tokens [OF assms(1)] print_def unknown_message_def)

theorem C9_unknown_command_witness:
  "str_split (str_strip (str_lower ''  Dance NOW '')) = ''dance'' # [''now'']
   \<and> ''dance'' \<notin> {''north'', ''south'', ''east'', ''west'', ''go'', ''quit'', ''exit'', ''look'', ''l''}
   \<and> parse_command start_game ''  Dance NOW '' =
        Inr (start_game\<lparr>stdout := [''Unknown command: 'dance now'. Try 'go north' or 'quit'.\<newline>'']\<rparr>)"
proof -
  have a: "str_split (str_strip (str_lower ''  Dance NOW '')) = ''dance'' # [''now'']"
    by code_simp
  have b: "''dance'' \<notin> {''north'', ''south'', ''east'', ''west'', ''go'', ''quit'', ''exit'', ''look'', ''l''}"
    by simp
  have c: "str_strip (str_lower ''  Dance NOW '') = ''dance now''" by code_simp
  from C9_unknown_command [OF a b, of start_game] a b show ?thesis
    by (simp add: c start_game_simps)
qed

subsection \<open>C10: the current room is a room of the world\<close>

text \<open>
  C10: call a session well-formed when every exit of every room of its mapping names
  a key of the mapping and its current room is stored in the mapping under some key.
  The new session is well-formed, with the room under \<open>start_hall\<close> as its current
  room. On a well-formed session no operation raises KeyError and each one returns a
  well-formed session over the same mapping: \<open>_handle_move\<close> in any direction,
  \<open>parse_command\<close> on any input, \<open>look\<close>, \<open>quit_game\<close>, and \<open>play\<close> on any input,
  which returns with the running flag cleared.
\<close>

theorem C10_current_room_in_world:
  "AdventureGame_init = Inr start_game
   \<and> map_of (rooms start_game) ''start_hall'' = Some (current_room start_game)
   \<and> game_inv start_game
   \<and> (\<forall>s. game_inv s \<longrightarrow> (\<exists>k. map_of (rooms s) k = Some (current_room s)))
   \<and> (\<forall>s d. game_inv s \<longrightarrow> (\<exists>s'. handle_move s d = Inr s' \<and> game_inv s' \<and> rooms s' = rooms s))
   \<and> (\<forall>s c. game_inv s \<longrightarrow> (\<exists>s'. parse_command s c = Inr s' \<and> game_inv s' \<and> rooms s' = rooms s))
   \<and> (\<forall>s. game_inv s \<longrightarrow> game_inv (look s) \<and> game_inv (quit_game s))
   \<and> (\<forall>s inp. game_inv s \<longrightarrow> (\<exists>s'. play s inp = Inr s' \<and> game_inv s' \<and> \<not> is_running s'))"
proof (intro conjI allI impI)
  show "AdventureGame_init = Inr start_game" by (rule init_start)
  show "map_of (rooms start_game) ''start_hall'' = Some (current_room start_game)"
    by (simp add: start_game_simps world_lookup)
  show "game_inv start_game" by (rule game_inv_start)
next
  fix s assume "game_inv s"
  then show "\<exists>k. map_of (rooms s) k = Some (current_room s)"
    by (simp add: game_inv_def in_world_iff)
next
  fix s d assume "game_inv s"
  then show "\<exists>s'. handle_move s d = Inr s' \<and> game_inv s' \<and> rooms s' = rooms s"
    by (rule handle_move_inv)
next
  fix s c assume "game_inv s"
  then show "\<exists>s'. parse_command s c = Inr s' \<and> game_inv s' \<and> rooms s' = rooms s"
    by (rule parse_command_inv)
next
  fix s assume "game_inv s"
  then show "game_inv (look s)" by (rule game_inv_look)
next
  fix s assume "game_inv s"
  then show "game_inv (quit_game s)" by (rule game_inv_quit)
next
  fix s inp assume "game_inv s"
  then show "\<exists>s'. play s inp = Inr s' \<and> game_inv s' \<and> \<not> is_running s'"
    by (rule play_inv)
qed

theorem C10_current_room_in_world_witness:
  "game_inv start_game
   \<and> parse_command start_game ''north'' =
        Inr (start_game\<lparr>current_room := dark_corridor,
               stdout := [''\<newline>'' @ get_description dark_corridor @ ''\<newline>'']\<rparr>)
   \<and> game_inv (start_game\<lparr>current_room := dark_corridor,
               stdout := [''\<newline>'' @ get_description dark_corridor @ ''\<newline>'']\<rparr>)
   \<and> map_of (rooms start_game) ''dark_corridor'' = Some dark_corridor"
proof -
  from C10_current_room_in_world have g: "game_inv start_game" by blast
  with C10_current_room_in_world
  have "\<exists>s'. parse_command start_game ''north'' = Inr s' \<and> game_inv s' \<and> rooms s' = rooms start_game"
    by blast
  with g show ?thesis by (simp add: start_north start_game_simps world_lookup)
qed

end
